theory Spec2Isabelle
  imports Main "HOL-Library.Sublist" "HOL-Library.AList"
begin

section \<open>The record store of the extractor (starttogetdata.py)\<close>

text \<open>
  A place is the dictionary that \<^verbatim>\<open>extract_basic_info\<close> builds: one
  entry for each of the nine headers, every entry a string (initially \<^verbatim>\<open>'N/A'\<close>).
\<close>

record place_data =
  name :: string
  rating :: string
  reviews :: string
  address :: string
  phone :: string
  website :: string
  latitude :: string
  longitude :: string
  extracted_time :: string

text \<open>
  A CSV file is the list of its lines, the header line first; a line is the list of its
  cells. The attributes of a \<^verbatim>\<open>GoogleMapsExtractor\<close> after \<^verbatim>\<open>__init__\<close>, together
  with the lines of \<^verbatim>\<open>gmaps_data.csv\<close> (the file is shared state of the object's
  methods; writing to it is taken to succeed).
\<close>

type_synonym csv_file = "string list list"

record extractor =
  seen_places :: "(string \<times> string) set"
  total_extracted :: nat
  last_processed_index :: nat
  csv_rows :: csv_file

definition place_key :: "place_data \<Rightarrow> string \<times> string" where
  "place_key p = (name p, address p)"

text \<open>\<^verbatim>\<open>csv.DictWriter(f, fieldnames=self.headers).writerow(place_data)\<close>: the cells in
  the order of \<^verbatim>\<open>self.headers\<close>.\<close>

definition writerow :: "place_data \<Rightarrow> string list" where
  "writerow p =
     [name p, rating p, reviews p, address p, phone p, website p,
      latitude p, longitude p, extracted_time p]"

text \<open>\<^verbatim>\<open>save_place\<close>: the returned boolean and the object after the call.\<close>

definition save_place :: "extractor \<Rightarrow> place_data \<Rightarrow> bool \<times> extractor" where
  "save_place self p =
     (if place_key p \<in> seen_places self then (False, self)
      else (True,
            self\<lparr>csv_rows := csv_rows self @ [writerow p],
                 seen_places := insert (place_key p) (seen_places self),
                 total_extracted := total_extracted self + 1\<rparr>))"

section \<open>The scroll loop (monitor_scrolling)\<close>

text \<open>
  A result card, as the driver shows it to the extractor: \<open>basic_info\<close> is what
  \<^verbatim>\<open>extract_basic_info\<close> returns for it (\<open>None\<close> when the name element is missing or the
  handle is stale), \<open>detailed_info\<close> is the dictionary \<^verbatim>\<open>details\<close> after the
  click, \<^verbatim>\<open>extract_detailed_info\<close> and back sequence (the basic dictionary when the click
  fails).
\<close>

record card =
  basic_info :: "place_data option"
  detailed_info :: place_data

definition extract_place_details :: "extractor \<Rightarrow> card \<Rightarrow> place_data option" where
  "extract_place_details self c =
     (case basic_info c of
        None \<Rightarrow> None
      | Some details \<Rightarrow>
          if place_key details \<in> seen_places self then None else Some (detailed_info c))"

definition MAX_RETRIES :: nat where
  "MAX_RETRIES = 3"

text \<open>
  The object and the local variables of \<^verbatim>\<open>monitor_scrolling\<close>. \<open>dispatched\<close> is
  the trace of the calls \<^verbatim>\<open>extract_place_details(card)\<close>, in order: it records an effect
  of the loop and is read by no branch.
\<close>

record scroll_state =
  obj :: extractor
  last_height :: int
  retries :: nat
  no_new_results_count :: nat
  processed_count :: nat
  dispatched :: "card list"

text \<open>A call of the driver returns a value or raises an exception.\<close>

datatype 'a reply = Returns 'a | Raises

text \<open>
  What the driver answers during one iteration of the loop, call by call:
  \<open>feed\<close> is \<^verbatim>\<open>wait_for_element\<close> on the feed (\<open>Returns False\<close>: it timed out and
  returned \<^verbatim>\<open>None\<close>), \<open>cards\<close> is \<^verbatim>\<open>find_elements\<close>, \<open>scroll_top\<close> and
  \<open>scroll_set\<close> are the two scripts of the scroll, \<open>new_height\<close> and
  \<open>updated_height\<close> the two readings of \<^verbatim>\<open>scrollHeight\<close>.
\<close>

record iter_env =
  feed :: "bool reply"
  cards :: "card list reply"
  scroll_top :: "int reply"
  scroll_set :: "unit reply"
  new_height :: "int reply"
  updated_height :: "int reply"

text \<open>How the body of the \<^verbatim>\<open>try\<close> is left: by \<^verbatim>\<open>break\<close>, at its end, or through the
  \<^verbatim>\<open>except\<close> clause.\<close>

datatype exit = Break | Completed | Excepted

definition on_exception :: "scroll_state \<Rightarrow> exit \<times> scroll_state" where
  "on_exception s = (Excepted, s\<lparr>retries := retries s + 1\<rparr>)"

text \<open>The body of \<^verbatim>\<open>for card in new_cards\<close>.\<close>

definition process_card :: "scroll_state \<Rightarrow> card \<Rightarrow> scroll_state" where
  "process_card s c =
     (let s1 = s\<lparr>dispatched := dispatched s @ [c]\<rparr> in
      case extract_place_details (obj s1) c of
        None \<Rightarrow> s1
      | Some place \<Rightarrow>
          (case save_place (obj s1) place of
             (saved, self') \<Rightarrow>
               if saved then s1\<lparr>obj := self', processed_count := processed_count s1 + 1\<rparr>
               else s1\<lparr>obj := self'\<rparr>))"

text \<open>Lines 195 to 206: the slice \<^verbatim>\<open>cards[self.last_processed_index:]\<close> and its
  processing.\<close>

definition scan :: "scroll_state \<Rightarrow> card list \<Rightarrow> scroll_state" where
  "scan s cs =
     (let new_cards = drop (last_processed_index (obj s)) cs in
      if new_cards \<noteq> [] then
        (let s1 = foldl process_card s new_cards in
         s1\<lparr>obj := (obj s1)\<lparr>last_processed_index := length cs\<rparr>,
            no_new_results_count := 0\<rparr>)
      else s\<lparr>no_new_results_count := no_new_results_count s + 1\<rparr>)"

text \<open>Lines 221 to 242: the two readings of the height.\<close>

definition check_height :: "scroll_state \<Rightarrow> iter_env \<Rightarrow> exit \<times> scroll_state" where
  "check_height s e =
     (case new_height e of
        Raises \<Rightarrow> on_exception s
      | Returns h \<Rightarrow>
          if h = last_height s then
            (case updated_height e of
               Raises \<Rightarrow> on_exception s
             | Returns u \<Rightarrow>
                 if u = h then
                   (Completed, s\<lparr>no_new_results_count := no_new_results_count s + 1\<rparr>)
                 else (Completed, s\<lparr>last_height := u, retries := 0\<rparr>))
          else (Completed, s\<lparr>last_height := h, retries := 0\<rparr>))"

text \<open>One pass through the body of the \<^verbatim>\<open>while\<close>.\<close>

definition iteration :: "scroll_state \<Rightarrow> iter_env \<Rightarrow> exit \<times> scroll_state" where
  "iteration s e =
     (case feed e of
        Raises \<Rightarrow> on_exception s
      | Returns False \<Rightarrow> (Break, s)
      | Returns True \<Rightarrow>
          (case cards e of
             Raises \<Rightarrow> on_exception s
           | Returns cs \<Rightarrow>
               (let s1 = scan s cs in
                case scroll_top e of
                  Raises \<Rightarrow> on_exception s1
                | Returns current_height \<Rightarrow>
                    (case scroll_set e of
                       Raises \<Rightarrow> on_exception s1
                     | Returns _ \<Rightarrow> check_height s1 e))))"

definition loop_guard :: "scroll_state \<Rightarrow> bool" where
  "loop_guard s \<longleftrightarrow> retries s < MAX_RETRIES \<and> no_new_results_count s < 3"

text \<open>
  The \<^verbatim>\<open>while\<close> loop, run against the answers of the driver for the iterations to
  come. The loop need not end (a feed that never stops growing), so the result says whether
  it has: \<open>(s, True)\<close> when the loop was left in state \<open>s\<close>, \<open>(s, False)\<close> when
  the answers ran out in state \<open>s\<close> with the loop still running.
\<close>

fun monitor_loop :: "scroll_state \<Rightarrow> iter_env list \<Rightarrow> scroll_state \<times> bool" where
  "monitor_loop s [] = (s, \<not> loop_guard s)"
| "monitor_loop s (e # es) =
     (if loop_guard s then
        (case iteration s e of
           (Break, s') \<Rightarrow> (s', True)
         | (_, s') \<Rightarrow> monitor_loop s' es)
      else (s, True))"

text \<open>The state in which \<^verbatim>\<open>monitor_scrolling\<close> enters its loop.\<close>

definition start :: "extractor \<Rightarrow> scroll_state" where
  "start self =
     \<lparr>obj = self, last_height = 0, retries = 0, no_new_results_count = 0,
      processed_count = 0, dispatched = []\<rparr>"

definition monitor_scrolling :: "extractor \<Rightarrow> iter_env list \<Rightarrow> scroll_state \<times> bool" where
  "monitor_scrolling self es = monitor_loop (start self) es"

subsection \<open>Notions used to state the properties of the loop\<close>

fun returned :: "'a reply \<Rightarrow> bool" where
  "returned (Returns _) = True"
| "returned Raises = False"

text \<open>An iteration in which the feed is found and no call of the driver raises.\<close>

definition quiet :: "iter_env \<Rightarrow> bool" where
  "quiet e \<longleftrightarrow>
     feed e = Returns True \<and> returned (cards e) \<and> returned (scroll_top e) \<and>
     returned (scroll_set e) \<and> returned (new_height e) \<and> returned (updated_height e)"

text \<open>A confirmed stall: the iteration reaches line 236, both readings of the height being
  equal to the last recorded height.\<close>

definition stall_confirmed :: "scroll_state \<Rightarrow> iter_env \<Rightarrow> bool" where
  "stall_confirmed s e \<longleftrightarrow>
     fst (iteration s e) = Completed \<and>
     new_height e = Returns (last_height s) \<and>
     updated_height e = Returns (last_height s)"

text \<open>The card lists that \<^verbatim>\<open>find_elements\<close> has to offer, iteration after iteration, and
  what it means for them to be append-only.\<close>

fun rendered :: "iter_env list \<Rightarrow> card list list" where
  "rendered [] = []"
| "rendered (e # es) =
     (case cards e of Returns cs \<Rightarrow> cs # rendered es | Raises \<Rightarrow> rendered es)"

fun append_only :: "'a list list \<Rightarrow> bool" where
  "append_only (x # y # zs) \<longleftrightarrow> prefix x y \<and> append_only (y # zs)"
| "append_only _ \<longleftrightarrow> True"

section \<open>Loading the store (setup_files and __init__)\<close>

datatype error =
  AttributeError | KeyError | IndexError | EmptyDataError | ParserError | FileNotFoundError

definition headers :: "string list" where
  "headers = [''name'', ''rating'', ''reviews'', ''address'', ''phone'', ''website'',
     ''latitude'', ''longitude'', ''extracted_time'']"

text \<open>
  A Python dictionary with string keys, as the list of its assignments in the order they
  were made: a later assignment to a key overrides an earlier one, and reading a key that
  was never assigned raises \<^verbatim>\<open>KeyError\<close>.
\<close>

definition getitem :: "(string \<times> 'v) list \<Rightarrow> string \<Rightarrow> error + 'v" where
  "getitem d k = (case map_of (rev d) k of None \<Rightarrow> Inl KeyError | Some v \<Rightarrow> Inr v)"

text \<open>
  The rows of \<^verbatim>\<open>csv.DictReader\<close> (standard library): the first line gives the field
  names, empty lines are skipped, a line is zipped with the field names and each field
  name beyond the end of a short line is assigned \<^verbatim>\<open>restval\<close>, which is \<^verbatim>\<open>None\<close>.
  (The cells of a long line are stored under the key \<^verbatim>\<open>None\<close>, which no string reads.)
\<close>

definition dict_row :: "string list \<Rightarrow> string list \<Rightarrow> (string \<times> string option) list" where
  "dict_row fieldnames row =
     zip fieldnames (map Some row @ replicate (length fieldnames - length row) None)"

definition DictReader :: "csv_file \<Rightarrow> (string \<times> string option) list list" where
  "DictReader f =
     (case f of
        [] \<Rightarrow> []
      | fieldnames # lines \<Rightarrow> map (dict_row fieldnames) (filter (\<lambda>l. l \<noteq> []) lines))"

text \<open>
  The loop of lines 52 and 53. Its first argument is the attribute \<^verbatim>\<open>self.seen_places\<close>
  (\<open>None\<close> while the attribute is not assigned). Python evaluates
  \<^verbatim>\<open>self.seen_places.add\<close> before the argument of the call, so a missing attribute is
  reported before a missing key.
\<close>

fun add_rows ::
  "(string option \<times> string option) set option \<Rightarrow> (string \<times> string option) list list \<Rightarrow>
   error + (string option \<times> string option) set option" where
  "add_rows seen [] = Inr seen"
| "add_rows seen (row # rows) =
     (case seen of
        None \<Rightarrow> Inl AttributeError
      | Some S \<Rightarrow>
          (case getitem row ''name'' of
             Inl err \<Rightarrow> Inl err
           | Inr n \<Rightarrow>
               (case getitem row ''address'' of
                  Inl err \<Rightarrow> Inl err
                | Inr a \<Rightarrow> add_rows (Some (insert (n, a) S)) rows)))"

text \<open>\<^verbatim>\<open>setup_files\<close>: the attribute and the file (\<open>None\<close>: no such file) before the
  call; the error raised, or the attribute and the file after it.\<close>

definition setup_files ::
  "(string option \<times> string option) set option \<Rightarrow> csv_file option \<Rightarrow>
   error + (string option \<times> string option) set option \<times> csv_file" where
  "setup_files seen file =
     (case file of
        None \<Rightarrow> Inr (seen, [headers])
      | Some f \<Rightarrow>
          (case add_rows seen (DictReader f) of
             Inl err \<Rightarrow> Inl err
           | Inr seen' \<Rightarrow> Inr (seen', f)))"

text \<open>
  \<^verbatim>\<open>__init__\<close> calls \<^verbatim>\<open>setup_files\<close> before it assigns \<^verbatim>\<open>self.seen_places\<close>, and
  assigns the empty set afterwards.
\<close>

definition init :: "csv_file option \<Rightarrow> error + extractor" where
  "init file =
     (case setup_files None file of
        Inl err \<Rightarrow> Inl err
      | Inr (seen, f) \<Rightarrow>
          Inr \<lparr>seen_places = {}, total_extracted = 0, last_processed_index = 0,
               csv_rows = f\<rparr>)"

section \<open>The email pass (email_scaper.py)\<close>

text \<open>
  Strings are ASCII text (the pattern of \<^verbatim>\<open>scrape_email_from_website\<close> matches ASCII
  only): \<^verbatim>\<open>lower\<close> maps A to Z to a to z, \<^verbatim>\<open>strip\<close> removes the ASCII white space
  at both ends.
\<close>

definition ascii_uppercase :: string where
  "ascii_uppercase = ''ABCDEFGHIJKLMNOPQRSTUVWXYZ''"

definition ascii_lowercase :: string where
  "ascii_lowercase = ''abcdefghijklmnopqrstuvwxyz''"

definition lower_char :: "char \<Rightarrow> char" where
  "lower_char c =
     (case map_of (zip ascii_uppercase ascii_lowercase) c of None \<Rightarrow> c | Some d \<Rightarrow> d)"

definition lower :: "string \<Rightarrow> string" where
  "lower s = map lower_char s"

definition isspace :: "char \<Rightarrow> bool" where
  "isspace c \<longleftrightarrow>
     c \<in> set [CHR 0x09, CHR 0x0A, CHR 0x0B, CHR 0x0C, CHR 0x0D, CHR 0x1C, CHR 0x1D, CHR 0x1E,
       CHR 0x1F, CHR 0x20]"

definition strip :: "string \<Rightarrow> string" where
  "strip s = rev (dropWhile isspace (rev (dropWhile isspace s)))"

definition normalize_email :: "string \<Rightarrow> string" where
  "normalize_email email = strip (lower email)"

text \<open>\<^verbatim>\<open>is_unique_email\<close>: the answer and \<^verbatim>\<open>self.seen_emails\<close> after the call.\<close>

definition is_unique_email :: "string set \<Rightarrow> string \<Rightarrow> bool \<times> string set" where
  "is_unique_email seen_emails email =
     (let normalized = normalize_email email in
      if normalized \<in> seen_emails then (False, seen_emails)
      else (True, insert normalized seen_emails))"

text \<open>The loop of \<^verbatim>\<open>process_emails\<close>, with its accumulator \<^verbatim>\<open>unique_emails\<close>.\<close>

fun process_emails_loop ::
  "string set \<Rightarrow> string list \<Rightarrow> string list \<Rightarrow> string list \<times> string set" where
  "process_emails_loop seen_emails unique_emails [] = (unique_emails, seen_emails)"
| "process_emails_loop seen_emails unique_emails (email # emails) =
     (case is_unique_email seen_emails email of
        (True, seen') \<Rightarrow> process_emails_loop seen' (unique_emails @ [email]) emails
      | (False, seen') \<Rightarrow> process_emails_loop seen' unique_emails emails)"

definition process_emails :: "string set \<Rightarrow> string list \<Rightarrow> string list \<times> string set" where
  "process_emails seen_emails emails = process_emails_loop seen_emails [] emails"

text \<open>\<^verbatim>\<open>email.split('@')[1]\<close>: the text between the first and the second \<^verbatim>\<open>@\<close>;
  \<^verbatim>\<open>IndexError\<close> when there is no \<^verbatim>\<open>@\<close>.\<close>

definition second_part :: "string \<Rightarrow> error + string" where
  "second_part email =
     (if CHR ''@'' \<in> set email
      then Inr (takeWhile (\<lambda>c. c \<noteq> CHR ''@'') (tl (dropWhile (\<lambda>c. c \<noteq> CHR ''@'') email)))
      else Inl IndexError)"

definition endswith :: "string \<Rightarrow> string \<Rightarrow> bool" where
  "endswith s suf \<longleftrightarrow> take (length suf) (rev s) = rev suf"

definition image_name :: "string \<Rightarrow> bool" where
  "image_name email \<longleftrightarrow>
     endswith (lower email) ''.png'' \<or> endswith (lower email) ''.jpg'' \<or>
     endswith (lower email) ''.jpeg'' \<or> endswith (lower email) ''.gif''"

text \<open>The list comprehension \<^verbatim>\<open>valid_emails\<close>: it raises as soon as one element does.\<close>

fun valid_emails :: "string list \<Rightarrow> error + string list" where
  "valid_emails [] = Inr []"
| "valid_emails (email # found_emails) =
     (case second_part email of
        Inl err \<Rightarrow> Inl err
      | Inr domain \<Rightarrow>
          (case valid_emails found_emails of
             Inl err \<Rightarrow> Inl err
           | Inr rest \<Rightarrow>
               if CHR ''.'' \<in> set domain \<and> \<not> image_name email then Inr (email # rest)
               else Inr rest))"

text \<open>
  \<^verbatim>\<open>scrape_email_from_website\<close>. The HTTP client and the regular expression are the
  parameter \<open>fetch\<close>: for a website, the matches of the pattern in the page, or
  \<open>None\<close> when the request raises. Every exception in the \<^verbatim>\<open>try\<close> leaves
  \<^verbatim>\<open>emails\<close> empty.
\<close>

definition scrape_email_from_website ::
  "(string \<Rightarrow> string list option) \<Rightarrow> string set \<Rightarrow> string \<Rightarrow> string list \<times> string set" where
  "scrape_email_from_website fetch seen_emails site =
     (case fetch site of
        None \<Rightarrow> ([], seen_emails)
      | Some found_emails \<Rightarrow>
          (case valid_emails found_emails of
             Inl err \<Rightarrow> ([], seen_emails)
           | Inr valid \<Rightarrow> process_emails seen_emails valid))"

subsection \<open>Data frames\<close>

text \<open>
  A cell of a data frame is a string or \<^verbatim>\<open>NaN\<close> (\<open>None\<close>); a row handed out by
  \<^verbatim>\<open>iterrows\<close> is the list of its labelled cells. The conversion of numeric columns by
  pandas is left out: every cell that is not \<^verbatim>\<open>NaN\<close> keeps its text.
\<close>

type_synonym cell = "string option"
type_synonym series = "(string \<times> cell) list"

record dataframe =
  columns :: "string list"
  body :: "cell list list"

text \<open>The strings that \<^verbatim>\<open>pandas.read_csv\<close> reads as \<^verbatim>\<open>NaN\<close> by default.\<close>

definition na_values :: "string list" where
  "na_values = ['''', ''#N/A'', ''#N/A N/A'', ''#NA'', ''-1.#IND'', ''-1.#QNAN'', ''-NaN'',
     ''-nan'', ''1.#IND'', ''1.#QNAN'', ''<NA>'', ''N/A'', ''NA'', ''NULL'', ''NaN'', ''None'',
     ''n/a'', ''nan'', ''null'']"

definition parse_cell :: "string \<Rightarrow> cell" where
  "parse_cell s = (if s \<in> set na_values then None else Some s)"

text \<open>
  \<^verbatim>\<open>pandas.read_csv\<close> on the lines of a file: no header line is
  \<^verbatim>\<open>EmptyDataError\<close>, a line longer than the header is \<^verbatim>\<open>ParserError\<close>, empty lines
  are skipped and short lines are filled with \<^verbatim>\<open>NaN\<close>.
\<close>

definition read_csv :: "csv_file \<Rightarrow> error + dataframe" where
  "read_csv f =
     (case f of
        [] \<Rightarrow> Inl EmptyDataError
      | header # lines \<Rightarrow>
          if header = [] then Inl EmptyDataError
          else if list_ex (\<lambda>l. length header < length l) lines then Inl ParserError
          else Inr \<lparr>columns = header,
                    body = map (\<lambda>l. map parse_cell l @ replicate (length header - length l) None)
                             (filter (\<lambda>l. l \<noteq> []) lines)\<rparr>)"

definition iterrows :: "dataframe \<Rightarrow> series list" where
  "iterrows df = map (zip (columns df)) (body df)"

definition notna :: "cell \<Rightarrow> bool" where
  "notna c \<longleftrightarrow> c \<noteq> None"

text \<open>The text that \<^verbatim>\<open>to_csv\<close> writes for a cell.\<close>

definition cell_text :: "cell \<Rightarrow> string" where
  "cell_text c = (case c of None \<Rightarrow> '''' | Some s \<Rightarrow> s)"

definition values_line :: "series \<Rightarrow> string list" where
  "values_line row = map (\<lambda>(k, c). cell_text c) row"

text \<open>\<^verbatim>\<open>save_row_to_csv\<close>: the output file (\<open>None\<close>: no such file) after the call.\<close>

definition save_row_to_csv :: "series \<Rightarrow> csv_file option \<Rightarrow> csv_file option" where
  "save_row_to_csv row output_file =
     (case output_file of
        None \<Rightarrow> Some [map fst row, values_line row]
      | Some lines \<Rightarrow> Some (lines @ [values_line row]))"

text \<open>\<^verbatim>\<open>pd.DataFrame(results).to_csv(output_file, index=False)\<close>, for dictionaries with
  the same keys: the file is written anew; without results it holds one empty line.\<close>

definition to_csv :: "series list \<Rightarrow> csv_file" where
  "to_csv results =
     (case results of [] \<Rightarrow> [[]] | row # _ \<Rightarrow> map fst row # map values_line results)"

text \<open>\<^verbatim>\<open>', '.join(emails)\<close> and \<^verbatim>\<open>email_list.split(', ')\<close>.\<close>

fun join :: "string list \<Rightarrow> string" where
  "join [] = []"
| "join [email] = email"
| "join (email # emails) = email @ '', '' @ join emails"

fun split_loop :: "string \<Rightarrow> string \<Rightarrow> string list" where
  "split_loop cur (c # d # s) =
     (if c = CHR '','' \<and> d = CHR '' '' then rev cur # split_loop [] s
      else split_loop (c # cur) (d # s))"
| "split_loop cur [c] = [rev (c # cur)]"
| "split_loop cur [] = [rev cur]"

definition split_comma :: "string \<Rightarrow> string list" where
  "split_comma email_list = split_loop [] email_list"

text \<open>Lines 70 to 77: the emails of an earlier output file join \<^verbatim>\<open>self.seen_emails\<close>.\<close>

definition column :: "dataframe \<Rightarrow> string \<Rightarrow> cell list" where
  "column df k = map (\<lambda>row. case map_of row k of None \<Rightarrow> None | Some c \<Rightarrow> c) (iterrows df)"

definition add_email_list :: "string set \<Rightarrow> cell \<Rightarrow> string set" where
  "add_email_list seen_emails c =
     (case c of
        None \<Rightarrow> seen_emails
      | Some email_list \<Rightarrow>
          foldl (\<lambda>seen email. insert (normalize_email email) seen) seen_emails
            (split_comma email_list))"

definition load_existing :: "string set \<Rightarrow> csv_file option \<Rightarrow> error + string set" where
  "load_existing seen_emails output_file =
     (case output_file of
        None \<Rightarrow> Inr seen_emails
      | Some lines \<Rightarrow>
          (case read_csv lines of
             Inl err \<Rightarrow> Inl err
           | Inr existing_df \<Rightarrow>
               if ''emails'' \<in> set (columns existing_df)
               then Inr (foldl add_email_list seen_emails (column existing_df ''emails''))
               else Inr seen_emails))"

text \<open>
  The loop of lines 79 to 91 over the rows of \<open>df\<close>, with \<^verbatim>\<open>results\<close>,
  \<^verbatim>\<open>self.seen_emails\<close> and the output file as its state.
\<close>

definition emails_cell :: "string list \<Rightarrow> cell" where
  "emails_cell emails = Some (if emails \<noteq> [] then join emails else ''N/A'')"

fun enrich_rows ::
  "(string \<Rightarrow> string list option) \<Rightarrow> series list \<times> string set \<times> csv_file option \<Rightarrow>
   series list \<Rightarrow> error + series list \<times> string set \<times> csv_file option" where
  "enrich_rows fetch st [] = Inr st"
| "enrich_rows fetch (results, seen_emails, output_file) (row # rows) =
     (case getitem row ''website'' of
        Inl err \<Rightarrow> Inl err
      | Inr w \<Rightarrow>
          (case w of
             None \<Rightarrow> enrich_rows fetch (results, seen_emails, output_file) rows
           | Some site \<Rightarrow>
               (case getitem row ''name'' of
                  Inl err \<Rightarrow> Inl err
                | Inr _ \<Rightarrow>
                    (case scrape_email_from_website fetch seen_emails site of
                       (emails, seen') \<Rightarrow>
                         (let new_row = AList.update ''emails'' (emails_cell emails) row in
                          enrich_rows fetch
                            (results @ [new_row], seen', save_row_to_csv new_row output_file)
                            rows)))))"

text \<open>\<^verbatim>\<open>process_websites\<close>: \<^verbatim>\<open>self.seen_emails\<close> and the output file after the call.\<close>

definition process_websites ::
  "(string \<Rightarrow> string list option) \<Rightarrow> string set \<Rightarrow> dataframe \<Rightarrow> csv_file option \<Rightarrow>
   error + string set \<times> csv_file option" where
  "process_websites fetch seen_emails df output_file =
     (case load_existing seen_emails output_file of
        Inl err \<Rightarrow> Inl err
      | Inr seen0 \<Rightarrow>
          (case enrich_rows fetch ([], seen0, output_file) (iterrows df) of
             Inl err \<Rightarrow> Inl err
           | Inr (results, seen', appended) \<Rightarrow> Inr (seen', Some (to_csv results))))"

text \<open>Lines 113 to 119 of \<^verbatim>\<open>main\<close>: the rows with a website, handed to a new scraper.\<close>

definition with_websites :: "dataframe \<Rightarrow> error + dataframe" where
  "with_websites df =
     (if ''website'' \<in> set (columns df)
      then Inr (df\<lparr>body := filter (\<lambda>r. case getitem (zip (columns df) r) ''website'' of
                                        Inl err \<Rightarrow> False | Inr c \<Rightarrow> notna c) (body df)\<rparr>)
      else Inl KeyError)"

definition main :: "(string \<Rightarrow> string list option) \<Rightarrow> csv_file option \<Rightarrow> csv_file option \<Rightarrow>
   error + string set \<times> csv_file option" where
  "main fetch input_file output_file =
     (case input_file of
        None \<Rightarrow> Inl FileNotFoundError
      | Some lines \<Rightarrow>
          (case read_csv lines of
             Inl err \<Rightarrow> Inl err
           | Inr df \<Rightarrow>
               (case with_websites df of
                  Inl err \<Rightarrow> Inl err
                | Inr df_with_websites \<Rightarrow>
                    process_websites fetch {} df_with_websites output_file)))"

section \<open>Notions and inputs used in the statements\<close>

text \<open>A row of the data frame whose website is not \<^verbatim>\<open>NaN\<close>.\<close>

definition has_website :: "series \<Rightarrow> bool" where
  "has_website row \<longleftrightarrow>
     (case getitem row ''website'' of Inr (Some site) \<Rightarrow> True | _ \<Rightarrow> False)"

text \<open>The output file after \<^verbatim>\<open>save_row_to_csv\<close> has been called for each of the rows.\<close>

definition append_rows :: "csv_file option \<Rightarrow> series list \<Rightarrow> csv_file option" where
  "append_rows output_file new_rows = foldl (\<lambda>f row. save_row_to_csv row f) output_file new_rows"


text \<open>Concrete inputs: a place, an extractor before its first card, eight cards, the
  answers of the driver in an iteration, and a small enrichment run.\<close>

definition cafe :: place_data where
  "cafe = \<lparr>name = ''Cafe'', rating = ''4.5'', reviews = ''12'', address = ''1 Main St'',
           phone = ''N/A'', website = ''N/A'', latitude = ''N/A'', longitude = ''N/A'',
           extracted_time = ''2024-01-01 10:00:00''\<rparr>"

definition fresh_extractor :: extractor where
  "fresh_extractor =
     \<lparr>seen_places = {}, total_extracted = 0, last_processed_index = 0,
      csv_rows = [headers]\<rparr>"

definition mk_card :: "string \<Rightarrow> card" where
  "mk_card n = \<lparr>basic_info = Some (cafe\<lparr>name := n\<rparr>), detailed_info = cafe\<lparr>name := n\<rparr>\<rparr>"

definition eight_cards :: "card list" where
  "eight_cards = map mk_card [''c0'', ''c1'', ''c2'', ''c3'', ''c4'', ''c5'', ''c6'', ''c7'']"

definition five_scanned :: scroll_state where
  "five_scanned = scan (start fresh_extractor) (take 5 eight_cards)"

definition steady_env :: iter_env where
  "steady_env = \<lparr>feed = Returns True, cards = Returns [mk_card ''c0''],
     scroll_top = Returns 0, scroll_set = Returns (), new_height = Returns 1000,
     updated_height = Returns 1000\<rparr>"

definition raising_env :: iter_env where
  "raising_env = steady_env\<lparr>feed := Raises\<rparr>"

definition one_saved :: extractor where
  "one_saved = \<lparr>seen_places = {(''c0'', ''1 Main St'')}, total_extracted = 1,
     last_processed_index = 1, csv_rows = [headers, writerow (cafe\<lparr>name := ''c0''\<rparr>)]\<rparr>"

definition stalled_once :: scroll_state where
  "stalled_once = (start one_saved)\<lparr>last_height := 1000, no_new_results_count := 1\<rparr>"

definition failed_once :: scroll_state where
  "failed_once = stalled_once\<lparr>retries := 1\<rparr>"

definition shop_df :: dataframe where
  "shop_df = \<lparr>columns = [''name'', ''website''],
     body = [[Some ''Shop'', Some ''http://shop.example''], [Some ''Kiosk'', None]]\<rparr>"

definition old_output :: csv_file where
  "old_output = [[''name'', ''website'', ''emails''],
     [''Bakery'', ''http://bakery.example'', ''hi@bakery.example'']]"

definition shop_fetch :: "string \<Rightarrow> string list option" where
  "shop_fetch site = Some [''info@shop.example'']"

definition shop_input :: csv_file where
  "shop_input = [[''name'', ''website''], [''Shop'', ''http://shop.example''],
     [''Kiosk'', ''N/A'']]"

definition shop_row :: series where
  "shop_row = [(''name'', Some ''Shop''), (''website'', Some ''http://shop.example''),
     (''emails'', Some ''info@shop.example'')]"

section \<open>Properties of the record store\<close>

lemma save_place_seen:
  "place_key p \<in> seen_places self \<Longrightarrow> save_place self p = (False, self)"
  by (simp add: save_place_def)

lemma save_place_fresh:
  "place_key p \<notin> seen_places self \<Longrightarrow>
   save_place self p =
     (True, self\<lparr>csv_rows := csv_rows self @ [writerow p],
                 seen_places := insert (place_key p) (seen_places self),
                 total_extracted := total_extracted self + 1\<rparr>)"
  by (simp add: save_place_def)

lemma save_place_key_seen_after:
  "place_key p \<in> seen_places (snd (save_place self p))"
  by (simp add: save_place_def)

text \<open>
  Claim C1. A record whose key (name, address) is already in the seen set is refused:
  \<^verbatim>\<open>save_place\<close> returns false and the file, the seen set and the accepted count stay as
  they were. A record with a new key is written as exactly one more row, its key joins the
  seen set, the count grows by one and the call returns true. Hence saving two records with
  the same key, one after the other, stores exactly one row for a new key (none for a known
  one), and the second call returns false.
\<close>

theorem save_place_idempotent:
  "(place_key p \<in> seen_places self \<longrightarrow>
      fst (save_place self p) = False \<and>
      csv_rows (snd (save_place self p)) = csv_rows self \<and>
      seen_places (snd (save_place self p)) = seen_places self \<and>
      total_extracted (snd (save_place self p)) = total_extracted self) \<and>
   (place_key p \<notin> seen_places self \<longrightarrow>
      fst (save_place self p) = True \<and>
      csv_rows (snd (save_place self p)) = csv_rows self @ [writerow p] \<and>
      seen_places (snd (save_place self p)) = insert (place_key p) (seen_places self) \<and>
      total_extracted (snd (save_place self p)) = total_extracted self + 1 \<and>
      last_processed_index (snd (save_place self p)) = last_processed_index self) \<and>
   (place_key q = place_key p \<longrightarrow>
      fst (save_place (snd (save_place self p)) q) = False \<and>
      snd (save_place (snd (save_place self p)) q) = snd (save_place self p) \<and>
      length (csv_rows (snd (save_place (snd (save_place self p)) q))) =
        length (csv_rows self) + (if place_key p \<in> seen_places self then 0 else 1))"
proof (intro conjI impI)
  assume "place_key q = place_key p"
  then have seen: "place_key q \<in> seen_places (snd (save_place self p))"
    using save_place_key_seen_after [of p self] by simp
  show "fst (save_place (snd (save_place self p)) q) = False"
    using save_place_seen [OF seen] by simp
  show "snd (save_place (snd (save_place self p)) q) = snd (save_place self p)"
    using save_place_seen [OF seen] by simp
  then show "length (csv_rows (snd (save_place (snd (save_place self p)) q))) =
        length (csv_rows self) + (if place_key p \<in> seen_places self then 0 else 1)"
    by (simp add: save_place_def)
qed (simp_all add: save_place_def)

text \<open>The theorem at a fresh extractor: the cafe is saved once, and a second record with the
  same name and address (another rating) is refused.\<close>

theorem save_place_idempotent_witness:
  "place_key cafe \<notin> seen_places fresh_extractor \<and>
   place_key (cafe\<lparr>rating := ''3.0''\<rparr>) = place_key cafe \<and>
   fst (save_place fresh_extractor cafe) = True \<and>
   csv_rows (snd (save_place fresh_extractor cafe)) = [headers, writerow cafe] \<and>
   total_extracted (snd (save_place fresh_extractor cafe)) = 1 \<and>
   place_key cafe \<in> seen_places (snd (save_place fresh_extractor cafe)) \<and>
   fst (save_place (snd (save_place fresh_extractor cafe)) (cafe\<lparr>rating := ''3.0''\<rparr>)) = False \<and>
   csv_rows (snd (save_place (snd (save_place fresh_extractor cafe))
      (cafe\<lparr>rating := ''3.0''\<rparr>))) = [headers, writerow cafe]"
  using save_place_idempotent [of cafe fresh_extractor "cafe\<lparr>rating := ''3.0''\<rparr>"]
  by (simp add: place_key_def fresh_extractor_def cafe_def save_place_def)

section \<open>Properties of the scroll loop\<close>

lemma process_card_frame:
  "dispatched (process_card s c) = dispatched s @ [c]"
  "last_processed_index (obj (process_card s c)) = last_processed_index (obj s)"
  "retries (process_card s c) = retries s"
  "no_new_results_count (process_card s c) = no_new_results_count s"
  "last_height (process_card s c) = last_height s"
  by (simp_all add: process_card_def Let_def save_place_def split: option.splits)

lemma foldl_process_card_frame:
  "dispatched (foldl process_card s cs) = dispatched s @ cs"
  "last_processed_index (obj (foldl process_card s cs)) = last_processed_index (obj s)"
  "retries (foldl process_card s cs) = retries s"
  "no_new_results_count (foldl process_card s cs) = no_new_results_count s"
  "last_height (foldl process_card s cs) = last_height s"
  by (induction cs arbitrary: s) (simp_all add: process_card_frame)

lemma scan_frame:
  "dispatched (scan s cs) = dispatched s @ drop (last_processed_index (obj s)) cs"
  "last_processed_index (obj (scan s cs)) =
     (if last_processed_index (obj s) < length cs then length cs
      else last_processed_index (obj s))"
  "retries (scan s cs) = retries s"
  "last_height (scan s cs) = last_height s"
  "no_new_results_count (scan s cs) =
     (if last_processed_index (obj s) < length cs then 0 else no_new_results_count s + 1)"
  by (simp_all add: scan_def Let_def foldl_process_card_frame)

lemma check_height_frame:
  "dispatched (snd (check_height s e)) = dispatched s"
  "obj (snd (check_height s e)) = obj s"
  by (simp_all add: check_height_def on_exception_def split: reply.splits)

lemma drop_nths: "drop k cs = map (\<lambda>i. cs ! i) [k ..< length cs]"
  by (simp add: list_eq_iff_nth_eq)

lemma iteration_scan:
  "feed e = Returns True \<Longrightarrow> cards e = Returns cs \<Longrightarrow>
   dispatched (snd (iteration s e)) = dispatched (scan s cs) \<and>
   obj (snd (iteration s e)) = obj (scan s cs)"
  by (simp add: iteration_def Let_def on_exception_def check_height_frame split: reply.splits)

lemmas eval_defs = start_def mk_card_def steady_env_def raising_env_def fresh_extractor_def
  cafe_def iteration_def scan_def check_height_def on_exception_def process_card_def
  extract_place_details_def save_place_def place_key_def writerow_def loop_guard_def
  MAX_RETRIES_def Let_def one_saved_def

text \<open>
  Claim C4. With \<^verbatim>\<open>last_processed_index\<close> equal to k and n cards rendered, k at most n,
  the scan hands exactly the cards at the indices k to n - 1, in this order, to
  \<^verbatim>\<open>extract_place_details\<close> and leaves \<^verbatim>\<open>last_processed_index\<close> at n; the rest of
  the iteration changes neither.
\<close>

theorem scan_pass_processes_new_cards:
  "(last_processed_index (obj s) \<le> length cs \<longrightarrow>
      dispatched (scan s cs) =
        dispatched s @ map (\<lambda>i. cs ! i) [last_processed_index (obj s) ..< length cs] \<and>
      last_processed_index (obj (scan s cs)) = length cs) \<and>
   (feed e = Returns True \<and> cards e = Returns cs \<and>
    last_processed_index (obj s) \<le> length cs \<longrightarrow>
      dispatched (snd (iteration s e)) =
        dispatched s @ map (\<lambda>i. cs ! i) [last_processed_index (obj s) ..< length cs] \<and>
      last_processed_index (obj (snd (iteration s e))) = length cs)"
  using drop_nths [of "last_processed_index (obj s)" cs]
  by (auto simp: scan_frame iteration_scan)

text \<open>The example of the claim: five of eight cards have been processed; the scan of the
  eight cards processes the cards 5, 6 and 7 and moves the index to 8.\<close>

theorem scan_pass_processes_new_cards_witness:
  "last_processed_index (obj five_scanned) = 5 \<and>
   dispatched five_scanned = take 5 eight_cards \<and>
   length eight_cards = 8 \<and>
   dispatched (scan five_scanned eight_cards) =
     dispatched five_scanned @ [mk_card ''c5'', mk_card ''c6'', mk_card ''c7''] \<and>
   last_processed_index (obj (scan five_scanned eight_cards)) = 8"
  using scan_pass_processes_new_cards [of five_scanned eight_cards steady_env]
  by (simp add: five_scanned_def scan_frame eight_cards_def start_def fresh_extractor_def)

lemma iteration_lpi:
  "last_processed_index (obj (snd (iteration s e))) = last_processed_index (obj s) \<or>
   (\<exists>cs. cards e = Returns cs \<and> last_processed_index (obj s) < length cs \<and>
      last_processed_index (obj (snd (iteration s e))) = length cs)"
  by (auto simp: iteration_def on_exception_def Let_def scan_frame check_height_frame
      split: reply.splits bool.splits)

lemma iteration_lpi_mono:
  "last_processed_index (obj s) \<le> last_processed_index (obj (snd (iteration s e)))"
  using iteration_lpi [of s e] by auto

lemma iteration_lpi_bound:
  "cards e = Returns cs \<Longrightarrow> last_processed_index (obj s) \<le> length cs \<Longrightarrow>
   last_processed_index (obj (snd (iteration s e))) \<le> length cs"
  using iteration_lpi [of s e] by auto

lemma iteration_lpi_raises:
  "cards e = Raises \<Longrightarrow>
   last_processed_index (obj (snd (iteration s e))) = last_processed_index (obj s)"
  using iteration_lpi [of s e] by auto

lemma append_only_last: "append_only (c # xs) \<Longrightarrow> length c \<le> length (last (c # xs))"
proof (induction xs arbitrary: c)
  case Nil
  then show ?case by simp
next
  case (Cons x xs)
  then have "prefix c x" and "append_only (x # xs)" by simp_all
  then have "length c \<le> length x" and "length x \<le> length (last (x # xs))"
    using Cons.IH by (auto simp: prefix_length_le)
  then show ?case by simp
qed

lemma monitor_loop_lpi_mono:
  "last_processed_index (obj s) \<le> last_processed_index (obj (fst (monitor_loop s es)))"
proof (induction es arbitrary: s)
  case Nil
  then show ?case by simp
next
  case (Cons e es)
  show ?case
  proof (cases "loop_guard s")
    case False
    then show ?thesis by simp
  next
    case True
    obtain x s' where it: "iteration s e = (x, s')" by (cases "iteration s e")
    have le: "last_processed_index (obj s) \<le> last_processed_index (obj s')"
      using iteration_lpi_mono [of s e] it by simp
    show ?thesis
    proof (cases x)
      case Break
      then show ?thesis using True it le by simp
    next
      case Completed
      then show ?thesis using True it le Cons.IH [of s'] by simp
    next
      case Excepted
      then show ?thesis using True it le Cons.IH [of s'] by simp
    qed
  qed
qed

lemma monitor_loop_lpi_bound:
  "append_only (c0 # rendered es) \<Longrightarrow> last_processed_index (obj s) \<le> length c0 \<Longrightarrow>
   last_processed_index (obj (fst (monitor_loop s es))) \<le> length (last (c0 # rendered es))"
proof (induction es arbitrary: s c0)
  case Nil
  then show ?case by simp
next
  case (Cons e es)
  have c0_last: "length c0 \<le> length (last (c0 # rendered (e # es)))"
    using append_only_last [OF Cons.prems(1)] .
  obtain x s' where it: "iteration s e = (x, s')" by (cases "iteration s e")
  have rec: "last_processed_index (obj (fst (monitor_loop s' es)))
      \<le> length (last (c0 # rendered (e # es)))"
  proof (cases "cards e")
    case (Returns cs)
    then have ao: "append_only (cs # rendered es)" and pre: "prefix c0 cs"
      using Cons.prems(1) by simp_all
    have "last_processed_index (obj s) \<le> length cs"
      using pre Cons.prems(2) by (meson order_trans prefix_length_le)
    then have "last_processed_index (obj s') \<le> length cs"
      using iteration_lpi_bound [OF Returns, of s] it by simp
    from Cons.IH [OF ao this] show ?thesis using Returns by simp
  next
    case Raises
    then have ao: "append_only (c0 # rendered es)" using Cons.prems(1) by simp
    have "last_processed_index (obj s') = last_processed_index (obj s)"
      using iteration_lpi_raises [OF Raises, of s] it by simp
    then have "last_processed_index (obj s') \<le> length c0" using Cons.prems(2) by simp
    from Cons.IH [OF ao this] show ?thesis using Raises by simp
  qed
  show ?case
  proof (cases "loop_guard s")
    case False
    then show ?thesis using Cons.prems(2) c0_last by simp
  next
    case True
    show ?thesis
    proof (cases x)
      case Break
      then have "s' = s" using it
        by (auto simp: iteration_def on_exception_def check_height_def Let_def
            split: reply.splits bool.splits if_splits)
      then show ?thesis using True it Break Cons.prems(2) c0_last by simp
    next
      case Completed
      then show ?thesis using True it rec by simp
    next
      case Excepted
      then show ?thesis using True it rec by simp
    qed
  qed
qed

text \<open>
  Claim C5. No iteration decreases \<^verbatim>\<open>last_processed_index\<close>, and neither does any run
  of the loop. When the rendered card lists only grow by appending (each list a prefix of
  the next, starting from a list \<open>c0\<close> that covers the index), the index after the run
  is at most the number of cards rendered last. The statement holds for every list of
  iterations, hence after each iteration of a session.
\<close>

theorem last_processed_index_invariant:
  "last_processed_index (obj s) \<le> last_processed_index (obj (snd (iteration s e))) \<and>
   last_processed_index (obj s) \<le> last_processed_index (obj (fst (monitor_loop s es))) \<and>
   (append_only (c0 # rendered es) \<and> last_processed_index (obj s) \<le> length c0 \<longrightarrow>
      last_processed_index (obj (fst (monitor_loop s es))) \<le> length (last (c0 # rendered es)))"
  using iteration_lpi_mono [of s e] monitor_loop_lpi_mono [of s es]
    monitor_loop_lpi_bound [of c0 es s]
  by blast

text \<open>The theorem on a session of two iterations, with one card and then three.\<close>

theorem last_processed_index_invariant_witness:
  "append_only ([] # rendered [steady_env, steady_env\<lparr>cards := Returns (take 3 eight_cards)\<rparr>]) \<and>
   last_processed_index (obj (start fresh_extractor)) \<le> length ([] :: card list) \<and>
   last_processed_index (obj (fst (monitor_loop (start fresh_extractor)
      [steady_env, steady_env\<lparr>cards := Returns (take 3 eight_cards)\<rparr>]))) \<le> 3"
  using last_processed_index_invariant [of "start fresh_extractor" steady_env
      "[steady_env, steady_env\<lparr>cards := Returns (take 3 eight_cards)\<rparr>]" "[]"]
  by (simp add: steady_env_def eight_cards_def start_def fresh_extractor_def)

lemma iteration_quiet:
  assumes "quiet e" "cards e = Returns cs"
  shows "fst (iteration s e) = Completed"
    and "no_new_results_count (snd (iteration s e)) =
      (if last_processed_index (obj s) < length cs then 0 else no_new_results_count s + 1) +
      (if stall_confirmed s e then 1 else 0)"
    and "retries (snd (iteration s e)) = (if stall_confirmed s e then retries s else 0)"
  using assms
  by (auto simp: quiet_def stall_confirmed_def iteration_def check_height_def on_exception_def
      Let_def scan_frame split: reply.splits bool.splits)

lemma quiet_cards: "quiet e \<Longrightarrow> \<exists>cs. cards e = Returns cs"
  by (cases "cards e") (simp_all add: quiet_def)

lemma monitor_loop_exited: "\<not> loop_guard s \<Longrightarrow> monitor_loop s es = (s, True)"
  by (cases es) simp_all

lemma monitor_loop_quiet:
  "\<forall>e\<in>set es. quiet e \<Longrightarrow> retries s < MAX_RETRIES \<Longrightarrow>
   retries (fst (monitor_loop s es)) < MAX_RETRIES \<and>
   (snd (monitor_loop s es) \<longleftrightarrow> 3 \<le> no_new_results_count (fst (monitor_loop s es)))"
proof (induction es arbitrary: s)
  case Nil
  then show ?case by (auto simp: loop_guard_def)
next
  case (Cons e es)
  show ?case
  proof (cases "loop_guard s")
    case False
    then show ?thesis using Cons.prems(2) by (auto simp: loop_guard_def)
  next
    case True
    have q: "quiet e" using Cons.prems(1) by simp
    then obtain cs where cs: "cards e = Returns cs" using quiet_cards by blast
    obtain x s' where it: "iteration s e = (x, s')" by (cases "iteration s e")
    have x: "x = Completed" using iteration_quiet(1) [OF q cs, of s] it by simp
    have "retries s' < MAX_RETRIES"
      using iteration_quiet(3) [OF q cs, of s] it Cons.prems(2)
      by (simp add: MAX_RETRIES_def split: if_splits)
    then show ?thesis using Cons.IH [of s'] Cons.prems(1) True it x by simp
  qed
qed

lemma iteration_exit_retries:
  "fst (iteration s e) = Excepted \<Longrightarrow> retries (snd (iteration s e)) = retries s + 1"
  "fst (iteration s e) = Break \<Longrightarrow> snd (iteration s e) = s"
  "fst (iteration s e) = Completed \<Longrightarrow>
     retries (snd (iteration s e)) = (if stall_confirmed s e then retries s else 0)"
  by (auto simp: stall_confirmed_def iteration_def check_height_def on_exception_def
      Let_def scan_frame split: reply.splits bool.splits if_splits)

lemma monitor_loop_raising:
  "loop_guard s \<Longrightarrow> \<forall>e\<in>set es. feed e = Raises \<Longrightarrow> MAX_RETRIES - retries s \<le> length es \<Longrightarrow>
   monitor_loop s es = (s\<lparr>retries := MAX_RETRIES\<rparr>, True)"
proof (induction es arbitrary: s)
  case Nil
  then show ?case by (simp add: loop_guard_def)
next
  case (Cons e es)
  have it: "iteration s e = (Excepted, s\<lparr>retries := retries s + 1\<rparr>)"
    using Cons.prems(2) by (simp add: iteration_def on_exception_def)
  show ?case
  proof (cases "retries s + 1 = MAX_RETRIES")
    case True
    then have "\<not> loop_guard (s\<lparr>retries := retries s + 1\<rparr>)" by (simp add: loop_guard_def)
    then show ?thesis using Cons.prems(1) it True monitor_loop_exited by simp
  next
    case False
    then have g: "loop_guard (s\<lparr>retries := retries s + 1\<rparr>)"
      using Cons.prems(1) by (simp add: loop_guard_def)
    have "MAX_RETRIES - retries (s\<lparr>retries := retries s + 1\<rparr>) \<le> length es"
      using Cons.prems(3) by simp
    from Cons.IH [OF g _ this] Cons.prems(2) show ?thesis
      using Cons.prems(1) it by simp
  qed
qed

lemma iteration_height:
  assumes "feed e = Returns True" "cards e = Returns cs" "scroll_top e = Returns t"
    "scroll_set e = Returns ()" "new_height e = Returns h"
  shows "h \<noteq> last_height s \<Longrightarrow>
      iteration s e = (Completed, (scan s cs)\<lparr>last_height := h, retries := 0\<rparr>)"
    and "h = last_height s \<Longrightarrow> updated_height e = Returns u \<Longrightarrow> u \<noteq> h \<Longrightarrow>
      iteration s e = (Completed, (scan s cs)\<lparr>last_height := u, retries := 0\<rparr>)"
  using assms by (simp_all add: iteration_def check_height_def Let_def scan_frame)

text \<open>
  Claim C2, as amended. The loop has a single counter, \<^verbatim>\<open>no_new_results_count\<close>. In an
  iteration without exception and with the feed found, a scan that finds new cards sets it
  to 0, a scan that finds none adds 1, and a confirmed stall of the height adds 1 more. In
  every run of such iterations the error ceiling is never reached and the loop has ended
  exactly when this counter has reached 3 or more; once the counter is 3 or more the loop
  ends without a further iteration. (So the session can end after two confirmed stalls.)
\<close>

theorem loop_ends_when_counter_reaches_three:
  "((\<forall>e\<in>set es. quiet e) \<and> retries s < MAX_RETRIES \<longrightarrow>
      retries (fst (monitor_loop s es)) < MAX_RETRIES \<and>
      (snd (monitor_loop s es) \<longleftrightarrow> 3 \<le> no_new_results_count (fst (monitor_loop s es)))) \<and>
   (3 \<le> no_new_results_count s \<longrightarrow> monitor_loop s es = (s, True)) \<and>
   (quiet e \<and> cards e = Returns cs \<longrightarrow>
      fst (iteration s e) = Completed \<and>
      no_new_results_count (snd (iteration s e)) =
        (if last_processed_index (obj s) < length cs then 0 else no_new_results_count s + 1) +
        (if stall_confirmed s e then 1 else 0))"
proof (intro conjI impI)
  assume "3 \<le> no_new_results_count s"
  then have "\<not> loop_guard s" by (simp add: loop_guard_def)
  then show "monitor_loop s es = (s, True)" by (rule monitor_loop_exited)
qed (use monitor_loop_quiet [of es s] iteration_quiet [of e cs s] in auto)

text \<open>The theorem on a feed that shows one card at height 1000 in every iteration.\<close>

theorem loop_ends_when_counter_reaches_three_witness:
  "quiet steady_env \<and>
   retries (start fresh_extractor) < MAX_RETRIES \<and>
   snd (monitor_loop (start fresh_extractor) [steady_env, steady_env, steady_env]) \<and>
   3 \<le> no_new_results_count
          (fst (monitor_loop (start fresh_extractor) [steady_env, steady_env, steady_env])) \<and>
   monitor_loop (stalled_once\<lparr>no_new_results_count := 3\<rparr>) [steady_env] =
     (stalled_once\<lparr>no_new_results_count := 3\<rparr>, True) \<and>
   stall_confirmed stalled_once steady_env \<and>
   no_new_results_count (snd (iteration stalled_once steady_env)) = 3"
  using loop_ends_when_counter_reaches_three
    [of "[steady_env, steady_env, steady_env]" "start fresh_extractor" steady_env
      "[mk_card ''c0'']"]
    loop_ends_when_counter_reaches_three
    [of "[steady_env]" "stalled_once\<lparr>no_new_results_count := 3\<rparr>" steady_env
      "[mk_card ''c0'']"]
    loop_ends_when_counter_reaches_three
    [of "[]" "stalled_once" steady_env "[mk_card ''c0'']"]
  by (simp add: eval_defs quiet_def stall_confirmed_def stalled_once_def)

text \<open>
  Claim C2 as stated fails: with one card at height 1000 in every iteration, the first
  iteration confirms no stall, the second and the third confirm one each, and the loop is
  left after the third iteration, the counter being 4, without any exception: the session
  ends after two confirmed stalls, not three.
\<close>

theorem two_stalls_end_session_counterexample:
  "monitor_scrolling fresh_extractor [steady_env] =
     ((start one_saved)\<lparr>last_height := 1000, processed_count := 1,
        dispatched := [mk_card ''c0'']\<rparr>, False) \<and>
   \<not> stall_confirmed (start fresh_extractor) steady_env \<and>
   monitor_scrolling fresh_extractor [steady_env, steady_env] =
     ((start one_saved)\<lparr>last_height := 1000, no_new_results_count := 2, processed_count := 1,
        dispatched := [mk_card ''c0'']\<rparr>, False) \<and>
   monitor_scrolling fresh_extractor [steady_env, steady_env, steady_env] =
     ((start one_saved)\<lparr>last_height := 1000, no_new_results_count := 4, processed_count := 1,
        dispatched := [mk_card ''c0'']\<rparr>, True)"
  by (simp add: monitor_scrolling_def eval_defs stall_confirmed_def)

text \<open>
  Claim C3, as amended. In an iteration that reaches the readings of the height, when the
  height read after the short pause differs from the last recorded one, or equals it and
  the height read after the long pause differs, the new height is recorded in
  \<^verbatim>\<open>last_height\<close> and the error counter \<^verbatim>\<open>retries\<close> is set to 0; the counter
  \<^verbatim>\<open>no_new_results_count\<close> keeps the value the scan left it with (0 after a scan that
  found new cards, one more than before otherwise).
\<close>

theorem height_change_recorded:
  "feed e = Returns True \<and> cards e = Returns cs \<and> scroll_top e = Returns t \<and>
   scroll_set e = Returns () \<and> new_height e = Returns h \<longrightarrow>
     (h \<noteq> last_height s \<longrightarrow>
        iteration s e = (Completed, (scan s cs)\<lparr>last_height := h, retries := 0\<rparr>) \<and>
        no_new_results_count (snd (iteration s e)) = no_new_results_count (scan s cs)) \<and>
     (h = last_height s \<and> updated_height e = Returns u \<and> u \<noteq> h \<longrightarrow>
        iteration s e = (Completed, (scan s cs)\<lparr>last_height := u, retries := 0\<rparr>) \<and>
        no_new_results_count (snd (iteration s e)) = no_new_results_count (scan s cs)) \<and>
     no_new_results_count (scan s cs) =
       (if last_processed_index (obj s) < length cs then 0 else no_new_results_count s + 1)"
  using iteration_height(1) [of e cs t h s] iteration_height(2) [of e cs t h s u]
  by (auto simp: scan_frame)

text \<open>The theorem in a state with one card processed, height 1000 recorded and the counter
  at 1, when the height grows to 1500 at the first or at the second reading.\<close>

theorem height_change_recorded_witness:
  "iteration stalled_once (steady_env\<lparr>new_height := Returns 1500\<rparr>) =
     (Completed, (scan stalled_once [mk_card ''c0''])\<lparr>last_height := 1500, retries := 0\<rparr>) \<and>
   iteration stalled_once (steady_env\<lparr>updated_height := Returns 1500\<rparr>) =
     (Completed, (scan stalled_once [mk_card ''c0''])\<lparr>last_height := 1500, retries := 0\<rparr>) \<and>
   no_new_results_count (scan stalled_once [mk_card ''c0'']) = 2"
  using height_change_recorded [of "steady_env\<lparr>new_height := Returns 1500\<rparr>"
      "[mk_card ''c0'']" 0 1500 stalled_once 1500]
    height_change_recorded [of "steady_env\<lparr>updated_height := Returns 1500\<rparr>"
      "[mk_card ''c0'']" 0 1000 stalled_once 1500]
  by (simp add: steady_env_def stalled_once_def start_def one_saved_def)

text \<open>
  Claim C3 as stated fails: in that state the counter is 1; the scan finds no new card and
  the height has grown to 1500, at the first reading or at the second. The new height is
  recorded, and the counter is 2 after the iteration, not 0.
\<close>

theorem stall_counter_not_reset_counterexample:
  "new_height (steady_env\<lparr>new_height := Returns 1500\<rparr>) \<noteq> Returns (last_height stalled_once) \<and>
   no_new_results_count stalled_once = 1 \<and>
   iteration stalled_once (steady_env\<lparr>new_height := Returns 1500\<rparr>) =
     (Completed, stalled_once\<lparr>last_height := 1500, no_new_results_count := 2\<rparr>) \<and>
   iteration stalled_once (steady_env\<lparr>updated_height := Returns 1500\<rparr>) =
     (Completed, stalled_once\<lparr>last_height := 1500, no_new_results_count := 2\<rparr>)"
  by (simp add: eval_defs stalled_once_def)

text \<open>
  Claim C6, as amended. An iteration that ends in the \<^verbatim>\<open>except\<close> clause adds 1 to
  \<^verbatim>\<open>retries\<close>; an iteration left by \<^verbatim>\<open>break\<close> changes nothing; an iteration without
  exception sets \<^verbatim>\<open>retries\<close> to 0 when it records a new height and leaves it as it
  was when it confirms a stall. When \<^verbatim>\<open>retries\<close> has reached \<^verbatim>\<open>MAX_RETRIES\<close> the
  loop ends in the state it is in, and a run of iterations that all raise ends the loop
  normally with \<^verbatim>\<open>retries\<close> at the ceiling and the tally untouched.
\<close>

theorem retries_counter:
  "(fst (iteration s e) = Excepted \<longrightarrow> retries (snd (iteration s e)) = retries s + 1) \<and>
   (fst (iteration s e) = Break \<longrightarrow> snd (iteration s e) = s) \<and>
   (fst (iteration s e) = Completed \<longrightarrow>
      retries (snd (iteration s e)) = (if stall_confirmed s e then retries s else 0)) \<and>
   (MAX_RETRIES \<le> retries s \<longrightarrow> monitor_loop s es = (s, True)) \<and>
   (loop_guard s \<and> (\<forall>e\<in>set es. feed e = Raises) \<and> MAX_RETRIES - retries s \<le> length es \<longrightarrow>
      monitor_loop s es = (s\<lparr>retries := MAX_RETRIES\<rparr>, True))"
proof (intro conjI impI)
  assume "MAX_RETRIES \<le> retries s"
  then have "\<not> loop_guard s" by (simp add: loop_guard_def)
  then show "monitor_loop s es = (s, True)" by (rule monitor_loop_exited)
next
  assume "loop_guard s \<and> (\<forall>e\<in>set es. feed e = Raises) \<and> MAX_RETRIES - retries s \<le> length es"
  then show "monitor_loop s es = (s\<lparr>retries := MAX_RETRIES\<rparr>, True)"
    using monitor_loop_raising [of s es] by blast
qed (simp_all add: iteration_exit_retries)

text \<open>The theorem in concrete states: an exception, a break, a new height, the ceiling,
  and two exceptions after a first one.\<close>

theorem retries_counter_witness:
  "fst (iteration stalled_once raising_env) = Excepted \<and>
   retries (snd (iteration stalled_once raising_env)) = 1 \<and>
   fst (iteration failed_once (steady_env\<lparr>feed := Returns False\<rparr>)) = Break \<and>
   snd (iteration failed_once (steady_env\<lparr>feed := Returns False\<rparr>)) = failed_once \<and>
   fst (iteration failed_once (steady_env\<lparr>new_height := Returns 1500\<rparr>)) = Completed \<and>
   retries (snd (iteration failed_once (steady_env\<lparr>new_height := Returns 1500\<rparr>))) = 0 \<and>
   monitor_loop (stalled_once\<lparr>retries := 3\<rparr>) [steady_env] =
     (stalled_once\<lparr>retries := 3\<rparr>, True) \<and>
   loop_guard failed_once \<and> feed raising_env = Raises \<and>
   monitor_loop failed_once [raising_env, raising_env] = (failed_once\<lparr>retries := 3\<rparr>, True) \<and>
   processed_count (fst (monitor_loop failed_once [raising_env, raising_env])) =
     processed_count failed_once"
  using retries_counter [of stalled_once raising_env "[]"]
    retries_counter [of failed_once "steady_env\<lparr>feed := Returns False\<rparr>" "[]"]
    retries_counter [of failed_once "steady_env\<lparr>new_height := Returns 1500\<rparr>" "[]"]
    retries_counter [of "stalled_once\<lparr>retries := 3\<rparr>" steady_env "[steady_env]"]
    retries_counter [of failed_once steady_env "[raising_env, raising_env]"]
  by (simp add: eval_defs stalled_once_def failed_once_def stall_confirmed_def)

text \<open>
  Claim C6 as stated fails: with \<^verbatim>\<open>retries\<close> at 1, an iteration without exception that
  confirms a stall leaves \<^verbatim>\<open>retries\<close> at 1; it is not reset to 0.
\<close>

theorem retries_not_reset_counterexample:
  "retries failed_once = 1 \<and>
   fst (iteration failed_once steady_env) = Completed \<and>
   retries (snd (iteration failed_once steady_env)) = 1"
  by (simp add: eval_defs stalled_once_def failed_once_def)

section \<open>Properties of loading the store\<close>

lemmas csv_eval = setup_files_def init_def DictReader_def dict_row_def getitem_def headers_def

lemma add_rows_no_attribute: "ds \<noteq> [] \<Longrightarrow> add_rows None ds = Inl AttributeError"
  by (cases ds) simp_all

text \<open>A store with a line that is not empty cannot be loaded, whatever its header and
  whatever the line holds; and an extractor that was built has loaded no key.\<close>

lemma init_rows_raise:
  "filter (\<lambda>l. l \<noteq> []) lines \<noteq> [] \<Longrightarrow>
   init (Some (fieldnames # lines)) = Inl AttributeError"
  by (simp add: init_def setup_files_def DictReader_def add_rows_no_attribute)

lemma init_never_loads: "init file = Inr x \<Longrightarrow> seen_places x = {}"
  by (auto simp: init_def split: sum.splits prod.splits)

text \<open>
  Claim C9 on concrete stores. \<^verbatim>\<open>__init__\<close> calls \<^verbatim>\<open>setup_files\<close> before the attribute
  \<^verbatim>\<open>seen_places\<close> is assigned. On a store whose only line holds a name and misses every
  other column, loading raises \<^verbatim>\<open>AttributeError\<close> at the first line and yields no seen
  set; the same happens on a store with one complete line. Only a store without lines, or
  no store at all, is loaded, and then the seen set is empty.
\<close>

theorem init_raises_on_stored_rows:
  "init (Some [headers, [''Cafe'']]) = Inl AttributeError \<and>
   init (Some [headers, writerow cafe]) = Inl AttributeError \<and>
   init (Some [headers]) = Inr fresh_extractor \<and>
   init None = Inr fresh_extractor"
  by (simp add: csv_eval fresh_extractor_def writerow_def cafe_def)

section \<open>Properties of the email pass\<close>









lemma enrich_rows_skip:
  "getitem row ''website'' = Inr None \<Longrightarrow>
   enrich_rows fetch st (row # rows) = enrich_rows fetch st rows"
  by (cases st) simp

lemma enrich_rows_results:
  "enrich_rows fetch (results, seen, f) rows = Inr (results', seen', f') \<Longrightarrow>
   \<exists>new_rows. results' = results @ new_rows \<and>
     map (AList.delete ''emails'') new_rows =
       map (AList.delete ''emails'') (filter has_website rows) \<and>
     f' = append_rows f new_rows"
proof (induction rows arbitrary: results seen f)
  case Nil
  then show ?case by (simp add: append_rows_def)
next
  case (Cons row rows)
  from Cons.prems obtain w where w: "getitem row ''website'' = Inr w"
    by (cases "getitem row ''website''") simp_all
  show ?case
  proof (cases w)
    case None
    then have "\<not> has_website row" using w by (simp add: has_website_def)
    moreover have "enrich_rows fetch (results, seen, f) rows = Inr (results', seen', f')"
      using Cons.prems w None by simp
    ultimately show ?thesis using Cons.IH by simp
  next
    case (Some site)
    then have hw: "has_website row" using w by (simp add: has_website_def)
    from Cons.prems w Some obtain n where n: "getitem row ''name'' = Inr n"
      by (cases "getitem row ''name''") simp_all
    obtain emails seen1 where sc: "scrape_email_from_website fetch seen site = (emails, seen1)"
      by (cases "scrape_email_from_website fetch seen site")
    let ?new = "AList.update ''emails'' (emails_cell emails) row"
    have "enrich_rows fetch (results @ [?new], seen1, save_row_to_csv ?new f) rows =
        Inr (results', seen', f')"
      using Cons.prems w Some n sc by (simp add: Let_def)
    from Cons.IH [OF this] obtain news where news:
      "results' = (results @ [?new]) @ news"
      "map (AList.delete ''emails'') news =
         map (AList.delete ''emails'') (filter has_website rows)"
      "f' = append_rows (save_row_to_csv ?new f) news"
      by blast
    show ?thesis
      using news hw
      by (intro exI [of _ "?new # news"]) (simp add: append_rows_def delete_update_same)
  qed
qed

lemma append_rows_Some:
  "append_rows (Some lines) new_rows = Some (lines @ map values_line new_rows)"
  by (induction new_rows arbitrary: lines) (simp_all add: append_rows_def save_row_to_csv_def)

lemma process_websites_results:
  assumes "process_websites fetch seen df output_file = Inr (seen', final)"
  shows "\<exists>results. final = Some (to_csv results) \<and>
      map (AList.delete ''emails'') results =
        map (AList.delete ''emails'') (filter has_website (iterrows df))"
proof -
  from assms obtain seen0 where "load_existing seen output_file = Inr seen0"
    by (cases "load_existing seen output_file") (simp_all add: process_websites_def)
  with assms obtain results f where
    loop: "enrich_rows fetch ([], seen0, output_file) (iterrows df) = Inr (results, seen', f)"
    and final: "final = Some (to_csv results)"
    by (cases "enrich_rows fetch ([], seen0, output_file) (iterrows df)")
      (auto simp: process_websites_def)
  from enrich_rows_results [OF loop] final show ?thesis by auto
qed

lemma with_websites_rows:
  assumes "with_websites df = Inr df'"
  shows "iterrows df' = filter has_website (iterrows df)"
proof -
  have same: "(case getitem row ''website'' of Inl err \<Rightarrow> False | Inr c \<Rightarrow> notna c) =
      has_website row" for row
    by (simp add: has_website_def notna_def split: sum.splits option.splits)
  from assms have df': "df' = df\<lparr>body := filter (\<lambda>r. has_website (zip (columns df) r)) (body df)\<rparr>"
    by (simp add: with_websites_def same split: if_splits)
  show ?thesis
    by (simp add: df' iterrows_def filter_map comp_def)
qed

lemma main_results:
  assumes "main fetch input_file output_file = Inr (seen', final)"
  shows "\<exists>lines df results. input_file = Some lines \<and> read_csv lines = Inr df \<and>
      final = Some (to_csv results) \<and>
      map (AList.delete ''emails'') results =
        map (AList.delete ''emails'') (filter has_website (iterrows df))"
proof -
  from assms obtain lines where lines: "input_file = Some lines"
    by (cases input_file) (simp_all add: main_def)
  with assms obtain df where df: "read_csv lines = Inr df"
    by (cases "read_csv lines") (simp_all add: main_def)
  with assms lines obtain df' where df': "with_websites df = Inr df'"
    by (cases "with_websites df") (simp_all add: main_def)
  with assms lines df have "process_websites fetch {} df' output_file = Inr (seen', final)"
    by (simp add: main_def)
  from process_websites_results [OF this] with_websites_rows [OF df']
  show ?thesis using lines df by auto
qed

lemmas email_eval = process_websites_def load_existing_def read_csv_def column_def iterrows_def
  add_email_list_def split_comma_def normalize_email_def strip_def lower_def lower_char_def
  ascii_uppercase_def ascii_lowercase_def isspace_def getitem_def
  scrape_email_from_website_def second_part_def image_name_def endswith_def process_emails_def
  is_unique_email_def emails_cell_def save_row_to_csv_def values_line_def to_csv_def
  parse_cell_def na_values_def cell_text_def Let_def shop_df_def old_output_def shop_fetch_def

text \<open>
  Claim C10. A row whose website is \<^verbatim>\<open>NaN\<close> is passed over: the loop goes on as if the
  row were not there. When the loop completes, its results are the rows with a website, in
  their order, each with its emails cell, and the lines appended to an existing output file
  are exactly these results; the file that \<^verbatim>\<open>process_websites\<close> leaves holds these
  results and nothing else, and so does the file that \<^verbatim>\<open>main\<close> leaves, for the rows
  of its input. The sentinel \<^verbatim>\<open>'N/A'\<close> and the empty cell are read as \<^verbatim>\<open>NaN\<close> by
  \<^verbatim>\<open>read_csv\<close>.
\<close>

theorem rows_only_for_websites:
  "(getitem row ''website'' = Inr None \<longrightarrow>
      enrich_rows fetch st (row # rows) = enrich_rows fetch st rows) \<and>
   (enrich_rows fetch ([], seen, Some lines) rows = Inr (results, seen', appended) \<longrightarrow>
      map (AList.delete ''emails'') results =
        map (AList.delete ''emails'') (filter has_website rows) \<and>
      appended = Some (lines @ map values_line results)) \<and>
   (process_websites fetch seen_emails df output_file = Inr (seen_after, final) \<longrightarrow>
      (\<exists>results. final = Some (to_csv results) \<and>
         map (AList.delete ''emails'') results =
           map (AList.delete ''emails'') (filter has_website (iterrows df)))) \<and>
   (main fetch input_file main_output = Inr (main_seen, main_final) \<longrightarrow>
      (\<exists>input_lines input_df results. input_file = Some input_lines \<and>
         read_csv input_lines = Inr input_df \<and> main_final = Some (to_csv results) \<and>
         map (AList.delete ''emails'') results =
           map (AList.delete ''emails'') (filter has_website (iterrows input_df)))) \<and>
   parse_cell ''N/A'' = None \<and> parse_cell '''' = None"
proof (intro conjI impI)
  show "enrich_rows fetch st (row # rows) = enrich_rows fetch st rows"
    if "getitem row ''website'' = Inr None"
    using that by (rule enrich_rows_skip)
next
  assume run: "enrich_rows fetch ([], seen, Some lines) rows = Inr (results, seen', appended)"
  from enrich_rows_results [OF run]
  show "map (AList.delete ''emails'') results =
      map (AList.delete ''emails'') (filter has_website rows)"
    and "appended = Some (lines @ map values_line results)"
    by (auto simp: append_rows_Some)
next
  assume "process_websites fetch seen_emails df output_file = Inr (seen_after, final)"
  then show "\<exists>results. final = Some (to_csv results) \<and>
      map (AList.delete ''emails'') results =
        map (AList.delete ''emails'') (filter has_website (iterrows df))"
    by (rule process_websites_results)
next
  assume "main fetch input_file main_output = Inr (main_seen, main_final)"
  then show "\<exists>input_lines input_df results. input_file = Some input_lines \<and>
      read_csv input_lines = Inr input_df \<and> main_final = Some (to_csv results) \<and>
      map (AList.delete ''emails'') results =
        map (AList.delete ''emails'') (filter has_website (iterrows input_df))"
    by (rule main_results)
qed (simp_all add: parse_cell_def na_values_def)

text \<open>The theorem on a data frame of two rows, a shop with a website and a kiosk
  without.\<close>

theorem rows_only_for_websites_witness:
  "getitem (zip (columns shop_df) [Some ''Kiosk'', None]) ''website'' = Inr None \<and>
   enrich_rows shop_fetch ([], {''hi@bakery.example''}, Some old_output) (iterrows shop_df) =
     Inr ([shop_row], {''info@shop.example'', ''hi@bakery.example''},
       Some (old_output @ [values_line shop_row])) \<and>
   process_websites shop_fetch {} shop_df (Some old_output) =
     Inr ({''info@shop.example'', ''hi@bakery.example''}, Some (to_csv [shop_row])) \<and>
   read_csv shop_input = Inr shop_df \<and>
   main shop_fetch (Some shop_input) None =
     Inr ({''info@shop.example''}, Some (to_csv [shop_row])) \<and>
   map (AList.delete ''emails'') [shop_row] =
     map (AList.delete ''emails'') (filter has_website (iterrows shop_df)) \<and>
   length (iterrows shop_df) = 2"
  using rows_only_for_websites [where row = "zip (columns shop_df) [Some ''Kiosk'', None]"
      and fetch = shop_fetch and st = "([], {}, None)" and rows = "iterrows shop_df"
      and seen = "{''hi@bakery.example''}" and lines = old_output and results = "[shop_row]"
      and seen' = "{''info@shop.example'', ''hi@bakery.example''}"
      and appended = "Some (old_output @ [values_line shop_row])"
      and seen_emails = "{}" and df = shop_df and output_file = "Some old_output"
      and seen_after = "{''info@shop.example'', ''hi@bakery.example''}"
      and final = "Some (to_csv [shop_row])" and input_file = "Some shop_input"
      and main_output = None and main_seen = "{''info@shop.example''}"
      and main_final = "Some (to_csv [shop_row])"]
  by (simp add: email_eval has_website_def shop_row_def shop_input_def main_def
      with_websites_def notna_def)

text \<open>
  Claim C8 on a concrete run. The output file holds the row of a bakery from an earlier
  run; the input has a shop with a website. While the loop runs, the row of the shop is
  appended after the row of the bakery. When \<^verbatim>\<open>process_websites\<close> returns, the final
  \<^verbatim>\<open>to_csv\<close> has written the file anew and the row of the bakery is gone.
\<close>

theorem final_save_overwrites_output:
  "map_sum id snd (process_websites shop_fetch {} shop_df (Some old_output)) =
     Inr (Some [[''name'', ''website'', ''emails''],
                [''Shop'', ''http://shop.example'', ''info@shop.example'']]) \<and>
   [''Bakery'', ''http://bakery.example'', ''hi@bakery.example''] \<in> set old_output \<and>
   map_sum id (\<lambda>(results, seen, f). f)
     (enrich_rows shop_fetch ([], {''hi@bakery.example''}, Some old_output) (iterrows shop_df)) =
     Inr (Some (old_output @ [[''Shop'', ''http://shop.example'', ''info@shop.example'']]))"
  by (simp add: email_eval)

end
